theory Spec2Isabelle
  imports Main "HOL-Library.Word"
begin

unbundle bit_operations_syntax

section \<open>Cortex-M4F exception handlers of CMSIS-RTOS RTX (irq\_cm4f.S)\<close>

text \<open>
  The source is Thumb-2 assembly. It is embedded instruction by instruction: a processor
  state record, one state transformer per instruction form the file uses, and one
  definition per label of the file that runs from the label to the exit of the handler.
  Collaborators (the service functions, \<open>thread_switch_helper\<close>,
  \<open>osRtxPendSV_Handler\<close>, \<open>osRtxTick_Handler\<close>) are not part of the file; they are
  parameters, given by their effect on the processor state from entry to return.
\<close>

subsection \<open>Memory: byte addressed, little endian\<close>

type_synonym word32 = "32 word"
type_synonym byte = "8 word"
type_synonym memory = "word32 \<Rightarrow> byte"

definition load32 :: "memory \<Rightarrow> word32 \<Rightarrow> word32" where
  "load32 m a = ucast (m a) OR push_bit 8 (ucast (m (a + 1)))
                OR push_bit 16 (ucast (m (a + 2))) OR push_bit 24 (ucast (m (a + 3)))"

definition store32 :: "memory \<Rightarrow> word32 \<Rightarrow> word32 \<Rightarrow> memory" where
  "store32 m a v = m(a := ucast v, a + 1 := ucast (drop_bit 8 v),
                     a + 2 := ucast (drop_bit 16 v), a + 3 := ucast (drop_bit 24 v))"

text \<open>Block transfers run over ascending addresses, lowest register first.\<close>

definition load_words :: "memory \<Rightarrow> word32 \<Rightarrow> nat \<Rightarrow> word32 list" where
  "load_words m a n = map (\<lambda>i. load32 m (a + 4 * of_nat i)) [0..<n]"

primrec store_words :: "memory \<Rightarrow> word32 \<Rightarrow> word32 list \<Rightarrow> memory" where
  "store_words m a [] = m"
| "store_words m a (w # ws) = store_words (store32 m a w) (a + 4) ws"

text \<open>
  \<open>in_range a n x\<close>: byte \<open>x\<close> lies in the \<open>n\<close> bytes starting at \<open>a\<close> (addresses wrap
  at \<open>2 ^ 32\<close>). \<open>apart a n b k\<close>: the \<open>n\<close> bytes at \<open>a\<close> and the \<open>k\<close> bytes at \<open>b\<close>
  do not meet.
\<close>

definition in_range :: "word32 \<Rightarrow> nat \<Rightarrow> word32 \<Rightarrow> bool" where
  "in_range a n x = (unat (x - a) < n)"

definition apart :: "word32 \<Rightarrow> nat \<Rightarrow> word32 \<Rightarrow> nat \<Rightarrow> bool" where
  "apart a n b k = (n \<le> unat (b - a) \<and> k \<le> unat (a - b))"

subsection \<open>Processor state\<close>

datatype reg = R0 | R1 | R2 | R3 | R4 | R5 | R6 | R7 | R8 | R9 | R10 | R11 | R12 | SP | LR

datatype label =
    L_SVC_Handler | L_SVC_Context | L_SVC_ContextSave | L_SVC_ContextSwitch
  | L_SVC_ContextRestore | L_SVC_Exit | L_SVC_User | L_SVC_Done
  | L_PendSV_Handler | L_SysTick_Handler

text \<open>
  The trace records what the handler itself does, in program order: the labels control
  passes, each data access (address and number of bytes), each call (target and the
  values of R0..R3 at the call) and the branch that leaves the handler. Literal-pool
  loads (\<open>LDR Rd,=value\<close>) read the code image and are not recorded.
\<close>

datatype event =
    Label label
  | Read word32 nat
  | Write word32 nat
  | Call word32 word32 word32 word32 word32
  | Exit word32

text \<open>
  The handlers run in handler mode, so \<open>SP\<close> is the main stack pointer; the process
  stack pointer is the special register \<open>PSP\<close>. \<open>sregs i\<close> is the FPU register
  \<open>S\<^sub>i\<close>.
\<close>

record cpu =
  regs :: "reg \<Rightarrow> word32"
  PSP :: word32
  sregs :: "nat \<Rightarrow> word32"
  flagN :: bool
  flagZ :: bool
  flagC :: bool
  flagV :: bool
  PRIMASK :: bool
  mem :: memory
  trace :: "event list"

text \<open>
  The link-time environment: the addresses of the imported symbols, the behaviour of
  the code at an address from its entry to its return (\<open>routine\<close>), the value a
  \<open>BL\<close>/\<open>BLX\<close> at a given source line leaves in LR (\<open>link\<close>), and the two
  preprocessor switches of the file.
\<close>

record env =
  osRtxInfo :: word32
  osRtxUserSVC :: word32
  thread_switch_helper :: word32
  osRtxPendSV_Handler :: word32
  osRtxTick_Handler :: word32
  routine :: "word32 \<Rightarrow> cpu \<Rightarrow> cpu"
  link :: "nat \<Rightarrow> word32"
  FPU_PRESENT :: bool
  FEATURE_UVISOR :: bool

definition I_T_RUN_OFS :: word32 where "I_T_RUN_OFS = 28"
definition TCB_SP_OFS :: word32 where "TCB_SP_OFS = 56"
definition TCB_SF_OFS :: word32 where "TCB_SF_OFS = 34"
definition FPCCR :: word32 where "FPCCR = 0xE000EF34"

subsection \<open>Instructions\<close>

definition set_reg :: "reg \<Rightarrow> word32 \<Rightarrow> cpu \<Rightarrow> cpu" where
  "set_reg r v s = s\<lparr>regs := (regs s)(r := v)\<rparr>"

definition emit :: "event \<Rightarrow> cpu \<Rightarrow> cpu" where
  "emit e s = s\<lparr>trace := trace s @ [e]\<rparr>"

primrec load_regs :: "reg list \<Rightarrow> word32 \<Rightarrow> memory \<Rightarrow> (reg \<Rightarrow> word32) \<Rightarrow> (reg \<Rightarrow> word32)" where
  "load_regs [] a m rf = rf"
| "load_regs (r # rs) a m rf = load_regs rs (a + 4) m (rf(r := load32 m a))"

text \<open>\<open>MRS Rd,PSP\<close> and \<open>MSR PSP,Rn\<close>.\<close>

definition MRS_PSP :: "reg \<Rightarrow> cpu \<Rightarrow> cpu" where
  "MRS_PSP rd s = set_reg rd (PSP s) s"

definition MSR_PSP :: "reg \<Rightarrow> cpu \<Rightarrow> cpu" where
  "MSR_PSP rn s = s\<lparr>PSP := regs s rn\<rparr>"

text \<open>\<open>LDR Rd,=value\<close>.\<close>

definition LDR_lit :: "reg \<Rightarrow> word32 \<Rightarrow> cpu \<Rightarrow> cpu" where
  "LDR_lit rd v s = set_reg rd v s"

text \<open>\<open>LDR Rt,[Rn,#imm]\<close>, \<open>LDRB Rt,[Rn,#imm]\<close>, \<open>LDR Rt,[Rn,Rm,LSL #sh]\<close>.\<close>

definition LDR_imm :: "reg \<Rightarrow> reg \<Rightarrow> word32 \<Rightarrow> cpu \<Rightarrow> cpu" where
  "LDR_imm rt rn imm s =
     (let a = regs s rn + imm in emit (Read a 4) (set_reg rt (load32 (mem s) a) s))"

definition LDRB_imm :: "reg \<Rightarrow> reg \<Rightarrow> word32 \<Rightarrow> cpu \<Rightarrow> cpu" where
  "LDRB_imm rt rn imm s =
     (let a = regs s rn + imm in emit (Read a 1) (set_reg rt (ucast (mem s a)) s))"

definition LDR_reg :: "reg \<Rightarrow> reg \<Rightarrow> reg \<Rightarrow> nat \<Rightarrow> cpu \<Rightarrow> cpu" where
  "LDR_reg rt rn rm sh s =
     (let a = regs s rn + push_bit sh (regs s rm)
      in emit (Read a 4) (set_reg rt (load32 (mem s) a) s))"

text \<open>\<open>STR Rt,[Rn,#imm]\<close> and \<open>STRB Rt,[Rn,#imm]\<close> (the low byte of \<open>Rt\<close>).\<close>

definition STR_imm :: "reg \<Rightarrow> reg \<Rightarrow> word32 \<Rightarrow> cpu \<Rightarrow> cpu" where
  "STR_imm rt rn imm s =
     (let a = regs s rn + imm
      in emit (Write a 4) (s\<lparr>mem := store32 (mem s) a (regs s rt)\<rparr>))"

definition STRB_imm :: "reg \<Rightarrow> reg \<Rightarrow> word32 \<Rightarrow> cpu \<Rightarrow> cpu" where
  "STRB_imm rt rn imm s =
     (let a = regs s rn + imm
      in emit (Write a 1) (s\<lparr>mem := (mem s)(a := ucast (regs s rt))\<rparr>))"

text \<open>
  \<open>LDM Rn,{list}\<close> (no write-back; the base may be in the list),
  \<open>LDMIA Rn!,{list}\<close>, \<open>STM Rn,{list}\<close>, \<open>STMDB Rn!,{list}\<close>, and \<open>PUSH\<close>/\<open>POP\<close>,
  which are \<open>STMDB SP!\<close>/\<open>LDMIA SP!\<close>.
\<close>

definition LDM :: "reg \<Rightarrow> reg list \<Rightarrow> cpu \<Rightarrow> cpu" where
  "LDM rn rs s =
     (let a = regs s rn
      in emit (Read a (4 * length rs)) (s\<lparr>regs := load_regs rs a (mem s) (regs s)\<rparr>))"

definition LDMIA_wb :: "reg \<Rightarrow> reg list \<Rightarrow> cpu \<Rightarrow> cpu" where
  "LDMIA_wb rn rs s =
     (let a = regs s rn
      in emit (Read a (4 * length rs))
           (s\<lparr>regs := (load_regs rs a (mem s) (regs s))(rn := a + 4 * of_nat (length rs))\<rparr>))"

definition STM :: "reg \<Rightarrow> reg list \<Rightarrow> cpu \<Rightarrow> cpu" where
  "STM rn rs s =
     (let a = regs s rn
      in emit (Write a (4 * length rs))
           (s\<lparr>mem := store_words (mem s) a (map (regs s) rs)\<rparr>))"

definition STMDB_wb :: "reg \<Rightarrow> reg list \<Rightarrow> cpu \<Rightarrow> cpu" where
  "STMDB_wb rn rs s =
     (let a = regs s rn - 4 * of_nat (length rs)
      in emit (Write a (4 * length rs))
           (s\<lparr>mem := store_words (mem s) a (map (regs s) rs), regs := (regs s)(rn := a)\<rparr>))"

definition PUSH :: "reg list \<Rightarrow> cpu \<Rightarrow> cpu" where
  "PUSH rs = STMDB_wb SP rs"

definition POP :: "reg list \<Rightarrow> cpu \<Rightarrow> cpu" where
  "POP rs = LDMIA_wb SP rs"

text \<open>
  \<open>POP {list,PC}\<close>: the registers of the list, then the word for PC; the branch to
  that word leaves the handler.
\<close>

definition POP_PC :: "reg list \<Rightarrow> cpu \<Rightarrow> cpu" where
  "POP_PC rs s =
     (let a = regs s SP; n = length rs
      in emit (Exit (load32 (mem s) (a + 4 * of_nat n)))
           (emit (Read a (4 * (n + 1)))
              (s\<lparr>regs := (load_regs rs a (mem s) (regs s))(SP := a + 4 * of_nat (n + 1))\<rparr>)))"

text \<open>\<open>VSTMDB Rn!,{S\<^sub>d-S\<^sub>d\<^sub>+\<^sub>n\<^sub>-\<^sub>1}\<close> and \<open>VLDMIA Rn!,{S\<^sub>d-S\<^sub>d\<^sub>+\<^sub>n\<^sub>-\<^sub>1}\<close>.\<close>

definition VSTMDB_wb :: "reg \<Rightarrow> nat \<Rightarrow> nat \<Rightarrow> cpu \<Rightarrow> cpu" where
  "VSTMDB_wb rn d n s =
     (let a = regs s rn - 4 * of_nat n
      in emit (Write a (4 * n))
           (s\<lparr>mem := store_words (mem s) a (map (sregs s) [d..<d + n]),
              regs := (regs s)(rn := a)\<rparr>))"

definition VLDMIA_wb :: "reg \<Rightarrow> nat \<Rightarrow> nat \<Rightarrow> cpu \<Rightarrow> cpu" where
  "VLDMIA_wb rn d n s =
     (let a = regs s rn; ws = load_words (mem s) a n
      in emit (Read a (4 * n))
           (s\<lparr>sregs := (\<lambda>i. if d \<le> i \<and> i < d + n then ws ! (i - d) else sregs s i),
              regs := (regs s)(rn := a + 4 * of_nat n)\<rparr>))"

text \<open>
  \<open>CMP Rn,Rm\<close> sets all four flags from \<open>Rn - Rm\<close>. \<open>TST Rn,#imm\<close> sets N and Z
  from \<open>Rn AND imm\<close>; with the unrotated immediate the file uses, C and V stay.
  \<open>BIC Rd,#imm\<close> and \<open>ORR Rd,Rn,#imm\<close> set no flags.
\<close>

definition CMP :: "reg \<Rightarrow> reg \<Rightarrow> cpu \<Rightarrow> cpu" where
  "CMP rn rm s =
     (let a = regs s rn; b = regs s rm; r = a - b
      in s\<lparr>flagN := bit r 31, flagZ := (r = 0), flagC := (b \<le> a),
            flagV := (sint a - sint b \<noteq> sint r)\<rparr>)"

definition TST_imm :: "reg \<Rightarrow> word32 \<Rightarrow> cpu \<Rightarrow> cpu" where
  "TST_imm rn imm s =
     (let r = regs s rn AND imm in s\<lparr>flagN := bit r 31, flagZ := (r = 0)\<rparr>)"

definition BIC_imm :: "reg \<Rightarrow> word32 \<Rightarrow> cpu \<Rightarrow> cpu" where
  "BIC_imm rd imm s = set_reg rd (regs s rd AND NOT imm) s"

definition ORR_imm :: "reg \<Rightarrow> reg \<Rightarrow> word32 \<Rightarrow> cpu \<Rightarrow> cpu" where
  "ORR_imm rd rn imm s = set_reg rd (regs s rn OR imm) s"

definition CPSID_I :: "cpu \<Rightarrow> cpu" where
  "CPSID_I s = s\<lparr>PRIMASK := True\<rparr>"

definition CPSIE_I :: "cpu \<Rightarrow> cpu" where
  "CPSIE_I s = s\<lparr>PRIMASK := False\<rparr>"

text \<open>
  \<open>BL symbol\<close> and \<open>BLX Rm\<close>: LR receives the return address, the routine at the
  target runs to its return. The trace stays the handler's own: it gains the call, and
  nothing the callee does is recorded in it.
\<close>

definition call :: "env \<Rightarrow> nat \<Rightarrow> word32 \<Rightarrow> cpu \<Rightarrow> cpu" where
  "call env line target s =
     (routine env target (set_reg LR (link env line) s))
       \<lparr>trace := trace s @ [Call target (regs s R0) (regs s R1) (regs s R2) (regs s R3)]\<rparr>"

definition BL :: "env \<Rightarrow> nat \<Rightarrow> word32 \<Rightarrow> cpu \<Rightarrow> cpu" where
  "BL env line target s = call env line target s"

definition BLX :: "env \<Rightarrow> nat \<Rightarrow> reg \<Rightarrow> cpu \<Rightarrow> cpu" where
  "BLX env line rm s = call env line (regs s rm) s"

text \<open>\<open>BX LR\<close> leaves the handler; with LR an EXC\_RETURN value it is the exception return.\<close>

definition BX_LR :: "cpu \<Rightarrow> cpu" where
  "BX_LR s = emit (Exit (regs s LR)) s"

subsection \<open>The handlers, label by label\<close>

text \<open>Line 124: \<open>SVC_Exit\<close>.\<close>

definition SVC_Exit :: "env \<Rightarrow> cpu \<Rightarrow> cpu" where
  "SVC_Exit env s = (let s = emit (Label L_SVC_Exit) s in BX_LR s)"

text \<open>
  The three straight-line blocks of the switch tail come first, each as the code between
  its label and the next one; the definitions named after the labels then run from the
  label to the exit of the handler.
\<close>

text \<open>Lines 81 to 91, the code under \<open>SVC_ContextSave\<close>.\<close>

definition SVC_ContextSave_block :: "env \<Rightarrow> cpu \<Rightarrow> cpu" where
  "SVC_ContextSave_block env s =
     (let s = emit (Label L_SVC_ContextSave) s;
          s = STMDB_wb R12 [R4, R5, R6, R7, R8, R9, R10, R11] s;
          s = (if FPU_PRESENT env
               then (let s = TST_imm LR 0x10 s
                     in if flagZ s then VSTMDB_wb R12 16 16 s else s)
               else s);
          s = STR_imm R12 R1 TCB_SP_OFS s;
          s = STRB_imm LR R1 TCB_SF_OFS s
      in s)"

text \<open>
  Lines 93 to 106, the code under \<open>SVC_ContextSwitch\<close>: the call of
  \<open>thread_switch_helper\<close> (lines 94 to 102), then the publication of the new current
  thread (lines 103 to 106).
\<close>

definition SVC_ContextSwitch_call :: "env \<Rightarrow> cpu \<Rightarrow> cpu" where
  "SVC_ContextSwitch_call env s =
     (let s = emit (Label L_SVC_ContextSwitch) s;
          s = (if FEATURE_UVISOR env then CPSID_I s else s);
          s = BL env 102 (thread_switch_helper env) s
      in s)"

definition SVC_ContextSwitch_publish :: "env \<Rightarrow> cpu \<Rightarrow> cpu" where
  "SVC_ContextSwitch_publish env s =
     (let s = LDR_lit R3 (osRtxInfo env + I_T_RUN_OFS) s;
          s = LDM R3 [R1, R2] s;
          s = STR_imm R2 R3 0 s
      in s)"

definition SVC_ContextSwitch_block :: "env \<Rightarrow> cpu \<Rightarrow> cpu" where
  "SVC_ContextSwitch_block env s = SVC_ContextSwitch_publish env (SVC_ContextSwitch_call env s)"

text \<open>Lines 108 to 122, the code under \<open>SVC_ContextRestore\<close>.\<close>

definition SVC_ContextRestore_block :: "env \<Rightarrow> cpu \<Rightarrow> cpu" where
  "SVC_ContextRestore_block env s =
     (let s = emit (Label L_SVC_ContextRestore) s;
          s = LDRB_imm R1 R2 TCB_SF_OFS s;
          s = LDR_imm R0 R2 TCB_SP_OFS s;
          s = ORR_imm LR R1 0xFFFFFF00 s;
          s = (if FPU_PRESENT env
               then (let s = TST_imm LR 0x10 s
                     in if flagZ s then VLDMIA_wb R0 16 16 s else s)
               else s);
          s = LDMIA_wb R0 [R4, R5, R6, R7, R8, R9, R10, R11] s;
          s = MSR_PSP R0 s;
          s = (if FEATURE_UVISOR env then CPSIE_I s else s)
      in s)"

text \<open>\<open>SVC_ContextRestore\<close> falls into \<open>SVC_Exit\<close>.\<close>

definition SVC_ContextRestore :: "env \<Rightarrow> cpu \<Rightarrow> cpu" where
  "SVC_ContextRestore env s = SVC_Exit env (SVC_ContextRestore_block env s)"

text \<open>\<open>SVC_ContextSwitch\<close> falls into \<open>SVC_ContextRestore\<close>.\<close>

definition SVC_ContextSwitch :: "env \<Rightarrow> cpu \<Rightarrow> cpu" where
  "SVC_ContextSwitch env s = SVC_ContextRestore env (SVC_ContextSwitch_block env s)"

text \<open>\<open>SVC_ContextSave\<close> falls into \<open>SVC_ContextSwitch\<close>.\<close>

definition SVC_ContextSave :: "env \<Rightarrow> cpu \<Rightarrow> cpu" where
  "SVC_ContextSave env s = SVC_ContextSwitch env (SVC_ContextSave_block env s)"

text \<open>
  Lines 63 to 79: \<open>SVC_Context\<close>. Its two straight-line pieces are the load and compare
  of the run slot (lines 64 to 66) and the clearing of FPCCR.LSPACT (lines 74 to 77).
  Without \<open>__FPU_PRESENT\<close> the lines 74 to 78 are absent and a \<open>BNE\<close> not taken falls
  into \<open>SVC_ContextSave\<close>.
\<close>

definition SVC_Context_load :: "env \<Rightarrow> cpu \<Rightarrow> cpu" where
  "SVC_Context_load env s =
     (let s = emit (Label L_SVC_Context) s;
          s = LDR_lit R3 (osRtxInfo env + I_T_RUN_OFS) s;
          s = LDM R3 [R1, R2] s;
          s = CMP R1 R2 s
      in s)"

definition SVC_Context_lspact :: "cpu \<Rightarrow> cpu" where
  "SVC_Context_lspact s =
     (let s = LDR_lit R1 FPCCR s;
          s = LDR_imm R0 R1 0 s;
          s = BIC_imm R0 1 s;
          s = STR_imm R0 R1 0 s
      in s)"

definition SVC_Context :: "env \<Rightarrow> cpu \<Rightarrow> cpu" where
  "SVC_Context env s =
     (let s = SVC_Context_load env s
      in if flagZ s then BX_LR s
         else if regs s R1 \<noteq> 0 then SVC_ContextSave env s
         else (let s = TST_imm LR 0x10 s
               in if \<not> flagZ s then SVC_ContextSwitch env s
                  else if FPU_PRESENT env then SVC_ContextSwitch env (SVC_Context_lspact s)
                  else SVC_ContextSave env s))"

text \<open>Lines 141 and 142: \<open>SVC_Done\<close>.\<close>

definition SVC_Done :: "env \<Rightarrow> cpu \<Rightarrow> cpu" where
  "SVC_Done env s = (let s = emit (Label L_SVC_Done) s in POP_PC [R4] s)"

text \<open>
  Lines 127 to 139: \<open>SVC_User\<close>, falling into \<open>SVC_Done\<close>. Its straight-line pieces are
  the range check (lines 128 to 131), the load of the function address and of the
  arguments (lines 134 to 136) and the store of the result (lines 138 and 139).
  \<open>BHI\<close> branches when C is set and Z is clear.
\<close>

definition SVC_User_load :: "env \<Rightarrow> cpu \<Rightarrow> cpu" where
  "SVC_User_load env s =
     (let s = emit (Label L_SVC_User) s;
          s = PUSH [R4, LR] s;
          s = LDR_lit R2 (osRtxUserSVC env) s;
          s = LDR_imm R3 R2 0 s;
          s = CMP R1 R3 s
      in s)"

definition SVC_User_args :: "cpu \<Rightarrow> cpu" where
  "SVC_User_args s =
     (let s = LDR_reg R4 R2 R1 2 s;
          s = LDM R0 [R0, R1, R2, R3] s
      in s)"

definition SVC_User_result :: "cpu \<Rightarrow> cpu" where
  "SVC_User_result s =
     (let s = MRS_PSP R4 s;
          s = STR_imm R0 R4 0 s
      in s)"

definition SVC_User :: "env \<Rightarrow> cpu \<Rightarrow> cpu" where
  "SVC_User env s =
     (let s = SVC_User_load env s
      in if flagC s \<and> \<not> flagZ s then SVC_Done env s
         else (let s = SVC_User_args s;
                   s = BLX env 137 R4 s;
                   s = SVC_User_result s
               in SVC_Done env s))"

text \<open>
  Lines 50 to 61: \<open>SVC_Handler\<close>, falling into \<open>SVC_Context\<close>. Its straight-line pieces
  are the load of the SVC number (lines 52 to 54), the load of the arguments (lines 57
  and 58) and the store of the results (lines 60 and 61).
\<close>

definition SVC_Handler_load :: "cpu \<Rightarrow> cpu" where
  "SVC_Handler_load s =
     (let s = emit (Label L_SVC_Handler) s;
          s = MRS_PSP R0 s;
          s = LDR_imm R1 R0 24 s;
          s = LDRB_imm R1 R1 (- 2) s
      in s)"

definition SVC_Handler_args :: "cpu \<Rightarrow> cpu" where
  "SVC_Handler_args s =
     (let s = PUSH [R0, LR] s;
          s = LDM R0 [R0, R1, R2, R3, R12] s
      in s)"

definition SVC_Handler_result :: "cpu \<Rightarrow> cpu" where
  "SVC_Handler_result s =
     (let s = POP [R12, LR] s;
          s = STM R12 [R0, R1] s
      in s)"

definition SVC_Handler :: "env \<Rightarrow> cpu \<Rightarrow> cpu" where
  "SVC_Handler env s =
     (let s = SVC_Handler_load s
      in if regs s R1 \<noteq> 0 then SVC_User env s
         else (let s = SVC_Handler_args s;
                   s = BLX env 59 R12 s;
                   s = SVC_Handler_result s
               in SVC_Context env s))"

text \<open>
  Lines 153 to 159: \<open>PendSV_Handler\<close>, and lines 170 to 176: \<open>SysTick_Handler\<close>. Each
  saves EXC\_RETURN around the call of the policy routine (\<open>enter\<close>), then restores it and
  loads PSP into R12 (\<open>leave\<close>), and branches to \<open>SVC_Context\<close>.
\<close>

definition PendSV_Handler_enter :: "cpu \<Rightarrow> cpu" where
  "PendSV_Handler_enter s =
     (let s = emit (Label L_PendSV_Handler) s;
          s = PUSH [R4, LR] s
      in s)"

definition PendSV_Handler_leave :: "cpu \<Rightarrow> cpu" where
  "PendSV_Handler_leave s =
     (let s = POP [R4, LR] s;
          s = MRS_PSP R12 s
      in s)"

definition PendSV_Handler :: "env \<Rightarrow> cpu \<Rightarrow> cpu" where
  "PendSV_Handler env s =
     (let s = PendSV_Handler_enter s;
          s = BL env 156 (osRtxPendSV_Handler env) s;
          s = PendSV_Handler_leave s
      in SVC_Context env s)"

definition SysTick_Handler_enter :: "cpu \<Rightarrow> cpu" where
  "SysTick_Handler_enter s =
     (let s = emit (Label L_SysTick_Handler) s;
          s = PUSH [R4, LR] s
      in s)"

definition SysTick_Handler_leave :: "cpu \<Rightarrow> cpu" where
  "SysTick_Handler_leave s =
     (let s = POP [R4, LR] s;
          s = MRS_PSP R12 s
      in s)"

definition SysTick_Handler :: "env \<Rightarrow> cpu \<Rightarrow> cpu" where
  "SysTick_Handler env s =
     (let s = SysTick_Handler_enter s;
          s = BL env 173 (osRtxTick_Handler env) s;
          s = SysTick_Handler_leave s
      in SVC_Context env s)"

subsection \<open>Frame forms\<close>

text \<open>
  Bit 4 (mask \<open>0x10\<close>) of EXC\_RETURN, and of the \<open>stack_frame\<close> byte that keeps its
  low byte, is clear for an extended (FPU) frame. The software-saved image of a thread is
  R4..R11, below them S16..S31 when the frame is extended: 8 or 24 words.
\<close>

definition extended_frame :: "'a::len word \<Rightarrow> bool" where
  "extended_frame exc = (exc AND 0x10 = 0)"

definition frame_words :: "word32 \<Rightarrow> nat" where
  "frame_words exc = (if extended_frame exc then 24 else 8)"

subsection \<open>What the handlers rely on from a callee\<close>

text \<open>
  A routine entered in state \<open>c\<close> that returns in state \<open>h\<close> has, by the procedure call
  standard, SP back at its entry value and the caller's words above SP untouched.
  \<open>returns_with_stack c h n\<close> says so for the \<open>n\<close> words at SP.
\<close>

definition returns_with_stack :: "cpu \<Rightarrow> cpu \<Rightarrow> nat \<Rightarrow> bool" where
  "returns_with_stack c h n =
     (regs h SP = regs c SP \<and>
      load_words (mem h) (regs c SP) n = load_words (mem c) (regs c SP) n)"

subsection \<open>Reading a trace\<close>

primrec is_access :: "event \<Rightarrow> bool" where
  "is_access (Label l) = False"
| "is_access (Read a n) = True"
| "is_access (Write a n) = True"
| "is_access (Call f a b c d) = False"
| "is_access (Exit v) = False"

primrec is_write :: "event \<Rightarrow> bool" where
  "is_write (Label l) = False"
| "is_write (Read a n) = False"
| "is_write (Write a n) = True"
| "is_write (Call f a b c d) = False"
| "is_write (Exit v) = False"

text \<open>The events a run from state \<open>s\<close> to state \<open>t\<close> added to the trace.\<close>

definition new_events :: "cpu \<Rightarrow> cpu \<Rightarrow> event list" where
  "new_events s t = drop (length (trace s)) (trace t)"

section \<open>A concrete system\<close>

text \<open>
  One link image and a few processor states, on which the theorems below are run.
  \<open>osRtxInfo\<close> is at \<open>0x20000000\<close>, so the run slot (current, next) is at
  \<open>0x2000001C\<close>; thread A has its control block at \<open>0x20000100\<close> and its process
  stack top at \<open>0x20001000\<close>; thread B has its control block at \<open>0x20000200\<close>, a basic
  frame (\<open>stack_frame = 0xFD\<close>) and its saved image at \<open>0x20002000\<close>; the main stack
  is at \<open>0x20008000\<close>; the user SVC table at \<open>0x08004000\<close> has three entries; the SVC
  instruction that trapped is at \<open>0x08002000\<close>. Every routine of this image returns 7
  and 9 in R0 and R1, overwrites R2, R3 and R12, and leaves the memory alone.
\<close>

definition routine_ex :: "word32 \<Rightarrow> cpu \<Rightarrow> cpu" where
  "routine_ex f s = s\<lparr>regs := (regs s)(R0 := 7, R1 := 9, R2 := 0, R3 := 0, R12 := 0)\<rparr>"

definition env_ex :: env where
  "env_ex = \<lparr>osRtxInfo = 0x20000000, osRtxUserSVC = 0x08004000,
     thread_switch_helper = 0x08000101, osRtxPendSV_Handler = 0x08000201,
     osRtxTick_Handler = 0x08000301, routine = routine_ex, link = (\<lambda>_. 0x08000401),
     FPU_PRESENT = True, FEATURE_UVISOR = False\<rparr>"

text \<open>
  Memory with the run slot holding \<open>cur\<close> and \<open>nxt\<close> and the trapped instruction
  \<open>SVC #imm\<close>; the hardware frame of thread A carries the arguments 1, 2, 3, 4, the
  service address \<open>0x08000501\<close> in R12 and the return address \<open>0x08002002\<close>; FPCCR has
  LSPACT set.
\<close>

definition mem_ex :: "word32 \<Rightarrow> word32 \<Rightarrow> byte \<Rightarrow> memory" where
  "mem_ex cur nxt imm =
     store_words
       (store_words
          (store_words
             (store_words
                (store_words
                   (store_words ((\<lambda>_. 0)(0x08002000 := imm, 0x20000222 := 0xFD))
                      0x2000001C [cur, nxt])
                   0x20000238 [0x20002000])
                0x20002000 [0x104, 0x105, 0x106, 0x107, 0x108, 0x109, 0x10A, 0x10B])
             0xE000EF34 [0xC0000001])
          0x08004000 [3, 0x08000601, 0x08000601, 0x08000601])
       0x20001000 [1, 2, 3, 4, 0x08000501, 0, 0x08002002, 0x01000000]"

text \<open>Thread A in a handler, with EXC\_RETURN \<open>exc\<close> in LR and R12 at its stack top.\<close>

definition cpu_ex :: "word32 \<Rightarrow> memory \<Rightarrow> cpu" where
  "cpu_ex exc m =
     \<lparr>regs = (\<lambda>_. 0)(R1 := 0x20000100, R4 := 0x44, R5 := 0x55, R6 := 0x66, R7 := 0x77,
               R8 := 0x88, R9 := 0x99, R10 := 0xAA, R11 := 0xBB, R12 := 0x20001000,
               SP := 0x20008000, LR := exc),
      PSP = 0x20001000, sregs = (\<lambda>i. 0x500 + of_nat i),
      flagN = False, flagZ = False, flagC = False, flagV = False, PRIMASK = False,
      mem = m, trace = []\<rparr>"

text \<open>
  \<open>fast_ex\<close>: current = next = A, basic frame, trapped on \<open>SVC #0\<close>.
  \<open>null_ex\<close>: both slots null. \<open>switch_ex\<close>: current = A with an extended frame,
  next = B. \<open>deleted_ex\<close>: current = null after a thread with an extended frame was
  deleted, next = B. \<open>svc2_ex\<close> and \<open>svc5_ex\<close>: trapped on \<open>SVC #2\<close> and \<open>SVC #5\<close>.
\<close>

definition fast_ex :: cpu where
  "fast_ex = cpu_ex 0xFFFFFFFD (mem_ex 0x20000100 0x20000100 0)"

definition null_ex :: cpu where
  "null_ex = cpu_ex 0xFFFFFFFD (mem_ex 0 0 0)"

definition switch_ex :: cpu where
  "switch_ex = cpu_ex 0xFFFFFFED (mem_ex 0x20000100 0x20000200 0)"

definition deleted_ex :: cpu where
  "deleted_ex = cpu_ex 0xFFFFFFED (mem_ex 0 0x20000200 0)"

definition svc2_ex :: cpu where
  "svc2_ex = cpu_ex 0xFFFFFFFD (mem_ex 0x20000100 0x20000100 2)"

definition svc5_ex :: cpu where
  "svc5_ex = cpu_ex 0xFFFFFFFD (mem_ex 0x20000100 0x20000100 5)"

text \<open>
  After the save block has run for thread A in \<open>switch_ex\<close>, other threads have run:
  every register is different, the memory is as the save block left it, and R2 holds
  thread A again.
\<close>

definition resumed_ex :: cpu where
  "resumed_ex =
     (SVC_ContextSave_block env_ex switch_ex)
       \<lparr>regs := (\<lambda>_. 0)(R2 := 0x20000100), sregs := (\<lambda>_. 0)\<rparr>"

section \<open>Memory lemmas\<close>

lemma load32_store32: "load32 (store32 m a v) a = v"
  unfolding load32_def store32_def
  apply simp
proof (rule bit_word_eqI)
  fix n :: nat
  assume n: "n < LENGTH(32)"
  have "n < 8 \<or> (8 \<le> n \<and> n < 16) \<or> (16 \<le> n \<and> n < 24) \<or> (24 \<le> n \<and> n < 32)"
    using n by auto
  then show "bit (ucast ((ucast v)::byte) OR push_bit 8 (ucast ((ucast (drop_bit 8 v))::byte))
              OR push_bit 16 (ucast ((ucast (drop_bit 16 v))::byte))
              OR push_bit 24 (ucast ((ucast (drop_bit 24 v))::byte)) :: word32) n = bit v n"
    by (auto simp add: bit_simps)
qed

lemma store32_other: "\<not> in_range a 4 x \<Longrightarrow> store32 m a v x = m x"
  unfolding in_range_def store32_def by auto

lemma apart_not_in: "apart a n b k \<Longrightarrow> in_range a n x \<Longrightarrow> \<not> in_range b k x"
  unfolding apart_def in_range_def by unat_arith

lemma load32_cong: "(\<And>x. in_range b 4 x \<Longrightarrow> m x = m' x) \<Longrightarrow> load32 m b = load32 m' b"
  unfolding load32_def in_range_def by simp

lemma in_range_sub: "in_range b k x \<Longrightarrow> unat (b - a) + k \<le> n \<Longrightarrow> in_range a n x"
  unfolding in_range_def by unat_arith

lemma store_words_other:
  "\<not> in_range a (4 * length ws) x \<Longrightarrow> store_words m a ws x = m x"
proof (induction ws arbitrary: m a)
  case Nil
  then show ?case by simp
next
  case (Cons w ws)
  have 1: "\<not> in_range a 4 x"
    using Cons.prems unfolding in_range_def by simp
  have 2: "\<not> in_range (a + 4) (4 * length ws) x"
    using Cons.prems unfolding in_range_def by unat_arith
  show ?case using Cons.IH [OF 2] 1 by (simp add: store32_other)
qed

lemma load32_store_words_apart:
  "apart a (4 * length ws) b 4 \<Longrightarrow> load32 (store_words m a ws) b = load32 m b"
  by (rule load32_cong) (metis apart_not_in store_words_other)

lemma load32_store32_apart:
  "apart a 4 b 4 \<Longrightarrow> load32 (store32 m a v) b = load32 m b"
  by (rule load32_cong) (metis apart_not_in store32_other)

lemma load_words_Suc: "load_words m a (Suc n) = load32 m a # load_words m (a + 4) n"
  unfolding load_words_def
  by (simp add: map_upt_Suc del: upt_Suc) (simp add: algebra_simps)

lemma load_words_0: "load_words m a 0 = []"
  by (simp add: load_words_def)

lemma length_load_words: "length (load_words m a n) = n"
  by (simp add: load_words_def)

lemma load_words_store_words:
  "4 * length ws \<le> 2 ^ 32 \<Longrightarrow> load_words (store_words m a ws) a (length ws) = ws"
proof (induction ws arbitrary: m a)
  case Nil
  then show ?case by (simp add: load_words_0)
next
  case (Cons w ws)
  have len: "4 * length ws + 4 \<le> 2 ^ 32" using Cons.prems by simp
  have ap: "apart (a + 4) (4 * length ws) a 4"
  proof -
    have "unat (- 4 :: word32) = 2 ^ 32 - 4" by simp
    then show ?thesis using len unfolding apart_def by simp
  qed
  have "load32 (store_words (store32 m a w) (a + 4) ws) a = w"
    using load32_store_words_apart [OF ap] by (simp add: load32_store32)
  moreover have "load_words (store_words (store32 m a w) (a + 4) ws) (a + 4) (length ws) = ws"
    using Cons.IH len by simp
  ultimately show ?case by (simp add: load_words_Suc)
qed

lemma unat_word_offset:
  "i < n \<Longrightarrow> 4 * n \<le> 2 ^ 32 \<Longrightarrow> unat (4 * of_nat i :: word32) = 4 * i"
proof -
  assume a: "i < n" "4 * n \<le> 2 ^ 32"
  have "(4 * of_nat i :: word32) = of_nat (4 * i)" by simp
  moreover have "4 * i < 2 ^ LENGTH(32)" using a by simp
  ultimately show ?thesis by (simp only: unat_of_nat mod_less)
qed

lemma in_range_word:
  assumes "in_range (a + 4 * of_nat i) 4 x" "i < n" "4 * n \<le> 2 ^ 32"
  shows "in_range a (4 * n) x"
proof -
  have "unat (a + 4 * of_nat i - a) = 4 * i"
    using unat_word_offset [OF assms(2,3)] by simp
  then show ?thesis
    using assms(1,2) by (intro in_range_sub [OF assms(1)]) simp
qed

lemma load_words_cong:
  assumes "\<And>x. in_range a (4 * n) x \<Longrightarrow> m x = m' x" "4 * n \<le> 2 ^ 32"
  shows "load_words m a n = load_words m' a n"
  unfolding load_words_def
proof (rule map_cong [OF refl], rule load32_cong)
  fix i x
  assume "i \<in> set [0..<n]" "in_range (a + 4 * of_nat i) 4 x"
  then have "in_range a (4 * n) x"
    using in_range_word assms(2) by simp
  then show "m x = m' x" by (rule assms(1))
qed

lemma load_words_store_words_apart:
  assumes "apart a (4 * length ws) b (4 * n)" "4 * n \<le> 2 ^ 32"
  shows "load_words (store_words m a ws) b n = load_words m b n"
proof (rule load_words_cong [OF _ assms(2)])
  fix x assume "in_range b (4 * n) x"
  then have "\<not> in_range a (4 * length ws) x"
    using assms(1) apart_not_in by blast
  then show "store_words m a ws x = m x" by (rule store_words_other)
qed

lemma apart_sym: "apart a n b k \<Longrightarrow> apart b k a n"
  unfolding apart_def by simp

section \<open>The blocks of the switch tail\<close>

lemmas insn_defs = set_reg_def emit_def MRS_PSP_def MSR_PSP_def LDR_lit_def LDR_imm_def LDRB_imm_def
  LDR_reg_def STR_imm_def STRB_imm_def LDM_def LDMIA_wb_def STM_def STMDB_wb_def PUSH_def POP_def
  POP_PC_def VSTMDB_wb_def VLDMIA_wb_def CMP_def TST_imm_def BIC_imm_def ORR_imm_def CPSID_I_def
  CPSIE_I_def call_def BL_def BLX_def BX_LR_def

lemma and16_bit: "(x :: 'a::len word) AND 0x10 = 0 \<longleftrightarrow> \<not> bit x 4"
proof -
  have "(0x10 :: 'a word) = 2 ^ 4" by simp
  then show ?thesis by (simp only: and_exp_eq_0_iff_not_bit)
qed

lemma rebuilt_bit4: "((ucast (b :: byte) :: word32) OR 0xFFFFFF00) AND 0x10 = 0 \<longleftrightarrow> b AND 0x10 = 0"
  by (simp add: and16_bit bit_simps)

lemma low_byte_bit4: "(ucast (w :: word32) :: byte) AND 0x10 = 0 \<longleftrightarrow> w AND 0x10 = 0"
  by (simp add: and16_bit bit_simps)

lemma save_block_mem:
  "FPU_PRESENT env \<Longrightarrow> mem (SVC_ContextSave_block env s) =
     (let mA = store_words (mem s) (regs s R12 - 32) (map (regs s) [R4, R5, R6, R7, R8, R9, R10, R11]);
          mB = (if extended_frame (regs s LR)
                then store_words mA (regs s R12 - 96) (map (sregs s) [16..<32]) else mA)
      in (store32 mB (regs s R1 + 56) (regs s R12 - 4 * of_nat (frame_words (regs s LR))))
           (regs s R1 + 34 := ucast (regs s LR)))"
  by (simp add: SVC_ContextSave_block_def Let_def insn_defs extended_frame_def frame_words_def
      TCB_SP_OFS_def TCB_SF_OFS_def del: store_words.simps upt_rec_numeral)


lemma load_words_append:
  "load_words m a (j + k) = load_words m a j @ load_words m (a + 4 * of_nat j) k"
proof (induction j arbitrary: a)
  case 0
  then show ?case by (simp add: load_words_0)
next
  case (Suc j)
  have "load_words m a (Suc (j + k)) = load32 m a # load_words m (a + 4) (j + k)"
    by (rule load_words_Suc)
  then show ?case by (simp add: Suc.IH load_words_Suc algebra_simps)
qed

lemma load_words_8:
  "load_words m a 8 = [load32 m a, load32 m (a + 4), load32 m (a + 4 + 4),
     load32 m (a + 4 + 4 + 4), load32 m (a + 4 + 4 + 4 + 4), load32 m (a + 4 + 4 + 4 + 4 + 4),
     load32 m (a + 4 + 4 + 4 + 4 + 4 + 4), load32 m (a + 4 + 4 + 4 + 4 + 4 + 4 + 4)]"
proof -
  have "(8::nat) = Suc (Suc (Suc (Suc (Suc (Suc (Suc (Suc 0)))))))" by simp
  then show ?thesis by (simp only: load_words_Suc load_words_0)
qed

lemma restore_block_gprs:
  "map (regs (SVC_ContextRestore_block env s)) [R4, R5, R6, R7, R8, R9, R10, R11] =
     load_words (mem s)
       (load32 (mem s) (regs s R2 + 56)
          + (if FPU_PRESENT env \<and> mem s (regs s R2 + 34) AND 0x10 = 0 then 64 else 0)) 8"
  by (simp add: SVC_ContextRestore_block_def Let_def insn_defs TCB_SP_OFS_def TCB_SF_OFS_def
      load_words_8 rebuilt_bit4)

lemma restore_block_sregs_fun:
  "sregs (SVC_ContextRestore_block env s) =
     (if FPU_PRESENT env \<and> mem s (regs s R2 + 34) AND 0x10 = 0
      then (\<lambda>i. if 16 \<le> i \<and> i < 32
                 then load_words (mem s) (load32 (mem s) (regs s R2 + 56)) 16 ! (i - 16)
                 else sregs s i)
      else sregs s)"
  by (simp add: SVC_ContextRestore_block_def Let_def insn_defs TCB_SP_OFS_def TCB_SF_OFS_def
      rebuilt_bit4 cong: if_cong)

lemma map_window:
  "length ws = n \<Longrightarrow> map (\<lambda>i. if d \<le> i \<and> i < d + n then ws ! (i - d) else f i) [d..<d + n] = ws"
  by (rule nth_equalityI) simp_all

lemma restore_block_sregs:
  assumes "FPU_PRESENT env" "mem s (regs s R2 + 34) AND 0x10 = 0"
  shows "map (sregs (SVC_ContextRestore_block env s)) [16..<32] =
     load_words (mem s) (load32 (mem s) (regs s R2 + 56)) 16"
proof -
  have "map (\<lambda>i. if 16 \<le> i \<and> i < 16 + 16
                 then load_words (mem s) (load32 (mem s) (regs s R2 + 56)) 16 ! (i - 16)
                 else sregs s i) [16..<16 + 16]
        = load_words (mem s) (load32 (mem s) (regs s R2 + 56)) 16"
    by (rule map_window) (rule length_load_words)
  then show ?thesis
    using assms by (simp add: restore_block_sregs_fun del: upt_rec_numeral)
qed

lemma restore_block_lr:
  "regs (SVC_ContextRestore_block env s) LR = 0xFFFFFF00 OR ucast (mem s (regs s R2 + 34))"
  by (simp add: SVC_ContextRestore_block_def Let_def insn_defs TCB_SP_OFS_def TCB_SF_OFS_def
      or.commute)

lemma restore_block_psp:
  "PSP (SVC_ContextRestore_block env s) =
     load32 (mem s) (regs s R2 + 56)
       + (if FPU_PRESENT env \<and> mem s (regs s R2 + 34) AND 0x10 = 0 then 96 else 32)"
  by (simp add: SVC_ContextRestore_block_def Let_def insn_defs TCB_SP_OFS_def TCB_SF_OFS_def
      rebuilt_bit4)

lemma save_block_sf:
  "FPU_PRESENT env \<Longrightarrow> mem (SVC_ContextSave_block env s) (regs s R1 + 34) = ucast (regs s LR)"
  by (simp add: save_block_mem Let_def)

lemma load32_byte_other: "\<not> in_range b 4 a \<Longrightarrow> load32 (m(a := v)) b = load32 m b"
  by (rule load32_cong) auto

lemma tcb_sp_readback: "load32 ((store32 m (t + 56) v)(t + 34 := w)) (t + 56) = v"
  by (simp add: load32_byte_other load32_store32 in_range_def)

lemma save_block_sp:
  assumes "FPU_PRESENT env"
  shows "load32 (mem (SVC_ContextSave_block env s)) (regs s R1 + 56)
           = regs s R12 - 4 * of_nat (frame_words (regs s LR))"
  using assms by (simp only: save_block_mem Let_def tcb_sp_readback)

lemma save_block_image:
  assumes fpu: "FPU_PRESENT env"
    and sp: "apart (regs s R1 + 56) 4 (regs s R12 - 4 * of_nat (frame_words (regs s LR)))
               (4 * frame_words (regs s LR))"
    and sf: "\<not> in_range (regs s R12 - 4 * of_nat (frame_words (regs s LR)))
               (4 * frame_words (regs s LR)) (regs s R1 + 34)"
  shows "load_words (mem (SVC_ContextSave_block env s))
           (regs s R12 - 4 * of_nat (frame_words (regs s LR))) (frame_words (regs s LR))
         = (if extended_frame (regs s LR) then map (sregs s) [16..<32] else [])
           @ map (regs s) [R4, R5, R6, R7, R8, R9, R10, R11]"
proof -
  let ?n = "frame_words (regs s LR)"
  let ?base = "regs s R12 - 4 * of_nat ?n"
  let ?Rs = "map (regs s) [R4, R5, R6, R7, R8, R9, R10, R11]"
  let ?Ss = "map (sregs s) [16..<32]"
  let ?mA = "store_words (mem s) (regs s R12 - 32) ?Rs"
  let ?mB = "if extended_frame (regs s LR) then store_words ?mA (regs s R12 - 96) ?Ss else ?mA"
  have n: "4 * ?n \<le> 2 ^ 32" by (simp add: frame_words_def)
  have strip: "load_words (mem (SVC_ContextSave_block env s)) ?base ?n = load_words ?mB ?base ?n"
  proof (rule load_words_cong [OF _ n])
    fix x assume x: "in_range ?base (4 * ?n) x"
    then have "x \<noteq> regs s R1 + 34" using sf by auto
    moreover have "\<not> in_range (regs s R1 + 56) 4 x"
      using apart_not_in [OF apart_sym [OF sp] x] .
    ultimately show "mem (SVC_ContextSave_block env s) x = ?mB x"
      using fpu by (simp add: save_block_mem Let_def store32_other del: store_words.simps upt_rec_numeral)
  qed
  have lenR: "length ?Rs = 8" by simp
  have "load_words ?mA (regs s R12 - 32) (length ?Rs) = ?Rs"
    by (rule load_words_store_words) simp
  then have A: "load_words ?mA (regs s R12 - 32) 8 = ?Rs"
    by (simp only: lenR)
  show ?thesis
  proof (cases "extended_frame (regs s LR)")
    case False
    moreover have "regs s R12 - 4 * of_nat 8 = regs s R12 - 32" by simp
    ultimately show ?thesis using strip A by (simp only: frame_words_def if_False append_Nil)
  next
    case True
    have lenS: "length ?Ss = 16" by simp
    have "load_words (store_words ?mA (regs s R12 - 96) ?Ss) (regs s R12 - 96) (length ?Ss) = ?Ss"
      by (rule load_words_store_words) simp
    then have B: "load_words (store_words ?mA (regs s R12 - 96) ?Ss) (regs s R12 - 96) 16 = ?Ss"
      by (simp only: lenS)
    have ap: "apart (regs s R12 - 96) (4 * length ?Ss) (regs s R12 - 32) (4 * 8)"
      by (simp add: apart_def)
    have "load_words (store_words ?mA (regs s R12 - 96) ?Ss) (regs s R12 - 32) 8
            = load_words ?mA (regs s R12 - 32) 8"
      by (rule load_words_store_words_apart [OF ap]) simp
    then have C: "load_words (store_words ?mA (regs s R12 - 96) ?Ss) (regs s R12 - 32) 8 = ?Rs"
      by (simp only: A)
    have off: "regs s R12 - 96 + 4 * of_nat 16 = regs s R12 - 32" by simp
    have "load_words (store_words ?mA (regs s R12 - 96) ?Ss) (regs s R12 - 96) (16 + 8) = ?Ss @ ?Rs"
      by (simp only: load_words_append off B C)
    moreover have "(16::nat) + 8 = 24" "regs s R12 - 4 * of_nat 24 = regs s R12 - 96" by simp_all
    ultimately show ?thesis using strip True by (simp only: frame_words_def if_True)
  qed
qed

section \<open>The handlers, piece by piece\<close>

lemma svc_exit_eq:
  "SVC_Exit env u = u\<lparr>trace := trace u @ [Label L_SVC_Exit, Exit (regs u LR)]\<rparr>"
  by (cases u) (simp add: SVC_Exit_def Let_def insn_defs)

lemma restore_block_trace:
  "trace (SVC_ContextRestore_block env u) =
     trace u @ [Label L_SVC_ContextRestore, Read (regs u R2 + 34) 1, Read (regs u R2 + 56) 4]
       @ (if FPU_PRESENT env \<and> extended_frame (mem u (regs u R2 + 34))
          then [Read (load32 (mem u) (regs u R2 + 56)) 64,
                Read (load32 (mem u) (regs u R2 + 56) + 64) 32]
          else [Read (load32 (mem u) (regs u R2 + 56)) 32])"
  by (cases u) (simp add: SVC_ContextRestore_block_def Let_def insn_defs TCB_SP_OFS_def
      TCB_SF_OFS_def rebuilt_bit4 extended_frame_def)

lemma restore_block_mem: "mem (SVC_ContextRestore_block env u) = mem u"
  by (cases u) (simp add: SVC_ContextRestore_block_def Let_def insn_defs)

lemma restore_block_r2: "regs (SVC_ContextRestore_block env u) R2 = regs u R2"
  by (cases u) (simp add: SVC_ContextRestore_block_def Let_def insn_defs)

lemma switch_call_trace:
  "trace (SVC_ContextSwitch_call env p) =
     trace p @ [Label L_SVC_ContextSwitch,
                Call (thread_switch_helper env) (regs p R0) (regs p R1) (regs p R2) (regs p R3)]"
  by (cases p) (simp add: SVC_ContextSwitch_call_def Let_def insn_defs)

lemma switch_publish_eq:
  "SVC_ContextSwitch_publish env h =
     (let a = osRtxInfo env + I_T_RUN_OFS
      in h\<lparr>regs := (regs h)(R3 := a, R1 := load32 (mem h) a, R2 := load32 (mem h) (a + 4)),
           mem := store32 (mem h) a (load32 (mem h) (a + 4)),
           trace := trace h @ [Read a 8, Write a 4]\<rparr>)"
  by (cases h) (simp add: SVC_ContextSwitch_publish_def Let_def insn_defs)

lemma save_block_trace:
  "trace (SVC_ContextSave_block env u) =
     trace u @ [Label L_SVC_ContextSave, Write (regs u R12 - 32) 32]
       @ (if FPU_PRESENT env \<and> extended_frame (regs u LR) then [Write (regs u R12 - 96) 64] else [])
       @ [Write (regs u R1 + 56) 4, Write (regs u R1 + 34) 1]"
  by (cases u) (simp add: SVC_ContextSave_block_def Let_def insn_defs TCB_SP_OFS_def
      TCB_SF_OFS_def extended_frame_def del: store_words.simps upt_rec_numeral)

lemma save_block_frame:
  assumes fpu: "FPU_PRESENT env"
    and x: "\<not> in_range (regs u R12 - 4 * of_nat (frame_words (regs u LR)))
              (4 * frame_words (regs u LR)) x"
           "\<not> in_range (regs u R1 + 56) 4 x" "x \<noteq> regs u R1 + 34"
  shows "mem (SVC_ContextSave_block env u) x = mem u x"
proof -
  let ?Rs = "map (regs u) [R4, R5, R6, R7, R8, R9, R10, R11]"
  let ?Ss = "map (sregs u) [16..<32]"
  have a: "\<not> in_range (regs u R12 - 32) (4 * length ?Rs) x"
  proof
    assume "in_range (regs u R12 - 32) (4 * length ?Rs) x"
    then have "in_range (regs u R12 - 32) 32 x" by simp
    then have "in_range (regs u R12 - 4 * of_nat (frame_words (regs u LR)))
              (4 * frame_words (regs u LR)) x"
      by (rule in_range_sub) (simp add: frame_words_def)
    then show False using x(1) by simp
  qed
  have b: "\<not> in_range (regs u R12 - 96) (4 * length ?Ss) x" if e: "extended_frame (regs u LR)"
  proof
    assume "in_range (regs u R12 - 96) (4 * length ?Ss) x"
    then have "in_range (regs u R12 - 96) 64 x" by simp
    then have "in_range (regs u R12 - 96) 96 x" by (rule in_range_sub) simp
    then show False using x(1) e by (simp add: frame_words_def)
  qed
  show ?thesis
    using fpu x(2,3) a b
    by (simp add: save_block_mem Let_def store32_other store_words_other
        del: store_words.simps upt_rec_numeral)
qed

lemma save_block_regs:
  "regs (SVC_ContextSave_block env u) =
     (regs u)(R12 := (if FPU_PRESENT env \<and> extended_frame (regs u LR)
                      then regs u R12 - 96 else regs u R12 - 32))"
  by (cases u) (simp add: SVC_ContextSave_block_def Let_def insn_defs extended_frame_def
      del: store_words.simps upt_rec_numeral)

lemma next_slot_kept [simp]: "load32 (store32 m a v) (a + 4) = load32 m (a + 4)"
  by (rule load32_store32_apart) (simp add: apart_def)

lemma switch_to_exit:
  "(let a = osRtxInfo env + I_T_RUN_OFS;
        t = SVC_ContextSwitch env p;
        nxt = load32 (mem t) (a + 4)
    in trace t = trace p @
         [Label L_SVC_ContextSwitch,
          Call (thread_switch_helper env) (regs p R0) (regs p R1) (regs p R2) (regs p R3),
          Read a 8, Write a 4,
          Label L_SVC_ContextRestore, Read (nxt + 34) 1, Read (nxt + 56) 4]
         @ (if FPU_PRESENT env \<and> extended_frame (mem t (nxt + 34))
            then [Read (load32 (mem t) (nxt + 56)) 64, Read (load32 (mem t) (nxt + 56) + 64) 32]
            else [Read (load32 (mem t) (nxt + 56)) 32])
         @ [Label L_SVC_Exit, Exit (0xFFFFFF00 OR ucast (mem t (nxt + 34)))]
      \<and> load32 (mem t) a = nxt \<and> regs t R2 = nxt)"
  by (simp add: Let_def SVC_ContextSwitch_def SVC_ContextRestore_def svc_exit_eq
      restore_block_trace restore_block_mem restore_block_r2 restore_block_lr
      SVC_ContextSwitch_block_def switch_publish_eq switch_call_trace load32_store32)

lemma switch_mem:
  "mem (SVC_ContextSwitch env p) =
     store32 (mem (SVC_ContextSwitch_call env p)) (osRtxInfo env + I_T_RUN_OFS)
       (load32 (mem (SVC_ContextSwitch_call env p)) (osRtxInfo env + I_T_RUN_OFS + 4))"
  by (simp add: Let_def SVC_ContextSwitch_def SVC_ContextRestore_def svc_exit_eq
      restore_block_mem SVC_ContextSwitch_block_def switch_publish_eq)

lemma context_load_eq:
  "SVC_Context_load env s =
     (let a = osRtxInfo env + I_T_RUN_OFS; cur = load32 (mem s) a; nxt = load32 (mem s) (a + 4)
      in s\<lparr>regs := (regs s)(R3 := a, R1 := cur, R2 := nxt),
           flagN := bit (cur - nxt) 31, flagZ := (cur = nxt), flagC := (nxt \<le> cur),
           flagV := (sint cur - sint nxt \<noteq> sint (cur - nxt)),
           trace := trace s @ [Label L_SVC_Context, Read a 8]\<rparr>)"
  by (cases s) (simp add: SVC_Context_load_def Let_def insn_defs)

lemma context_lspact_eq:
  "SVC_Context_lspact q =
     q\<lparr>regs := (regs q)(R1 := FPCCR, R0 := load32 (mem q) FPCCR AND NOT 1),
       mem := store32 (mem q) FPCCR (load32 (mem q) FPCCR AND NOT 1),
       trace := trace q @ [Read FPCCR 4, Write FPCCR 4]\<rparr>"
  by (cases q) (simp add: SVC_Context_lspact_def Let_def insn_defs)

lemma context_save_path:
  assumes "load32 (mem s) (osRtxInfo env + I_T_RUN_OFS) \<noteq> load32 (mem s) (osRtxInfo env + I_T_RUN_OFS + 4)"
    and "load32 (mem s) (osRtxInfo env + I_T_RUN_OFS) \<noteq> 0"
  shows "SVC_Context env s
           = SVC_ContextSwitch env (SVC_ContextSave_block env (SVC_Context_load env s))"
  using assms
  by (simp add: SVC_Context_def SVC_ContextSave_def Let_def context_load_eq [of env s])

lemma context_deleted_basic:
  assumes "load32 (mem s) (osRtxInfo env + I_T_RUN_OFS + 4) \<noteq> 0"
    and "load32 (mem s) (osRtxInfo env + I_T_RUN_OFS) = 0"
    and "\<not> extended_frame (regs s LR)"
  shows "SVC_Context env s = SVC_ContextSwitch env (TST_imm LR 0x10 (SVC_Context_load env s))"
  using assms
  by (simp add: SVC_Context_def Let_def context_load_eq [of env s] TST_imm_def extended_frame_def)

lemma context_deleted_extended:
  assumes "load32 (mem s) (osRtxInfo env + I_T_RUN_OFS + 4) \<noteq> 0"
    and "load32 (mem s) (osRtxInfo env + I_T_RUN_OFS) = 0"
    and "extended_frame (regs s LR)" and "FPU_PRESENT env"
  shows "SVC_Context env s
           = SVC_ContextSwitch env (SVC_Context_lspact (TST_imm LR 0x10 (SVC_Context_load env s)))"
  using assms
  by (simp add: SVC_Context_def Let_def context_load_eq [of env s] TST_imm_def extended_frame_def)

lemma context_load_fields:
  "trace (SVC_Context_load env s) = trace s @ [Label L_SVC_Context, Read (osRtxInfo env + I_T_RUN_OFS) 8]"
  "regs (SVC_Context_load env s) =
     (regs s)(R3 := osRtxInfo env + I_T_RUN_OFS, R1 := load32 (mem s) (osRtxInfo env + I_T_RUN_OFS),
              R2 := load32 (mem s) (osRtxInfo env + I_T_RUN_OFS + 4))"
  "mem (SVC_Context_load env s) = mem s"
  "sregs (SVC_Context_load env s) = sregs s"
  "PSP (SVC_Context_load env s) = PSP s"
  by (simp_all add: context_load_eq Let_def)

lemma tst_fields:
  "trace (TST_imm r i q) = trace q" "regs (TST_imm r i q) = regs q" "mem (TST_imm r i q) = mem q"
  "sregs (TST_imm r i q) = sregs q" "PSP (TST_imm r i q) = PSP q"
  by (simp_all add: TST_imm_def Let_def)

lemma context_lspact_fields:
  "trace (SVC_Context_lspact q) = trace q @ [Read FPCCR 4, Write FPCCR 4]"
  "regs (SVC_Context_lspact q) = (regs q)(R1 := FPCCR, R0 := load32 (mem q) FPCCR AND NOT 1)"
  "mem (SVC_Context_lspact q) = store32 (mem q) FPCCR (load32 (mem q) FPCCR AND NOT 1)"
  "sregs (SVC_Context_lspact q) = sregs q" "PSP (SVC_Context_lspact q) = PSP q"
  by (simp_all add: context_lspact_eq)

lemma tail_trace_save:
  assumes "load32 (mem s) (osRtxInfo env + I_T_RUN_OFS) \<noteq> load32 (mem s) (osRtxInfo env + I_T_RUN_OFS + 4)"
    and "load32 (mem s) (osRtxInfo env + I_T_RUN_OFS) \<noteq> 0"
  shows "(let a = osRtxInfo env + I_T_RUN_OFS; cur = load32 (mem s) a;
              t = SVC_Context env s; nxt = load32 (mem t) (a + 4)
          in new_events s t =
               [Label L_SVC_Context, Read a 8, Label L_SVC_ContextSave, Write (regs s R12 - 32) 32]
               @ (if FPU_PRESENT env \<and> extended_frame (regs s LR) then [Write (regs s R12 - 96) 64] else [])
               @ [Write (cur + 56) 4, Write (cur + 34) 1,
                  Label L_SVC_ContextSwitch,
                  Call (thread_switch_helper env) (regs s R0) cur (load32 (mem s) (a + 4)) a,
                  Read a 8, Write a 4,
                  Label L_SVC_ContextRestore, Read (nxt + 34) 1, Read (nxt + 56) 4]
               @ (if FPU_PRESENT env \<and> extended_frame (mem t (nxt + 34))
                  then [Read (load32 (mem t) (nxt + 56)) 64, Read (load32 (mem t) (nxt + 56) + 64) 32]
                  else [Read (load32 (mem t) (nxt + 56)) 32])
               @ [Label L_SVC_Exit, Exit (0xFFFFFF00 OR ucast (mem t (nxt + 34)))]
             \<and> load32 (mem t) a = nxt)"
proof -
  define p where "p = SVC_ContextSave_block env (SVC_Context_load env s)"
  have path: "SVC_Context env s = SVC_ContextSwitch env p"
    unfolding p_def by (rule context_save_path [OF assms])
  have tp: "trace p = trace s @
               ([Label L_SVC_Context, Read (osRtxInfo env + I_T_RUN_OFS) 8, Label L_SVC_ContextSave,
                 Write (regs s R12 - 32) 32]
               @ (if FPU_PRESENT env \<and> extended_frame (regs s LR) then [Write (regs s R12 - 96) 64] else [])
               @ [Write (load32 (mem s) (osRtxInfo env + I_T_RUN_OFS) + 56) 4,
                  Write (load32 (mem s) (osRtxInfo env + I_T_RUN_OFS) + 34) 1])"
    unfolding p_def by (simp add: save_block_trace context_load_fields)
  have rp: "regs p R0 = regs s R0" "regs p R1 = load32 (mem s) (osRtxInfo env + I_T_RUN_OFS)"
    "regs p R2 = load32 (mem s) (osRtxInfo env + I_T_RUN_OFS + 4)"
    "regs p R3 = osRtxInfo env + I_T_RUN_OFS"
    unfolding p_def by (simp_all add: save_block_regs context_load_fields)
  show ?thesis
    using switch_to_exit [of env p]
    by (simp add: path Let_def new_events_def tp rp)
qed

lemma tail_trace_deleted:
  assumes "load32 (mem s) (osRtxInfo env + I_T_RUN_OFS + 4) \<noteq> 0"
    and "load32 (mem s) (osRtxInfo env + I_T_RUN_OFS) = 0"
    and "FPU_PRESENT env"
  shows "(let a = osRtxInfo env + I_T_RUN_OFS;
              t = SVC_Context env s; nxt = load32 (mem t) (a + 4)
          in new_events s t =
               [Label L_SVC_Context, Read a 8]
               @ (if extended_frame (regs s LR) then [Read FPCCR 4, Write FPCCR 4] else [])
               @ [Label L_SVC_ContextSwitch,
                  Call (thread_switch_helper env)
                    (if extended_frame (regs s LR) then load32 (mem s) FPCCR AND NOT 1 else regs s R0)
                    (if extended_frame (regs s LR) then FPCCR else 0)
                    (load32 (mem s) (a + 4)) a,
                  Read a 8, Write a 4,
                  Label L_SVC_ContextRestore, Read (nxt + 34) 1, Read (nxt + 56) 4]
               @ (if extended_frame (mem t (nxt + 34))
                  then [Read (load32 (mem t) (nxt + 56)) 64, Read (load32 (mem t) (nxt + 56) + 64) 32]
                  else [Read (load32 (mem t) (nxt + 56)) 32])
               @ [Label L_SVC_Exit, Exit (0xFFFFFF00 OR ucast (mem t (nxt + 34)))]
             \<and> load32 (mem t) a = nxt)"
proof (cases "extended_frame (regs s LR)")
  case True
  define p where "p = SVC_Context_lspact (TST_imm LR 0x10 (SVC_Context_load env s))"
  have path: "SVC_Context env s = SVC_ContextSwitch env p"
    unfolding p_def by (rule context_deleted_extended [OF assms(1,2) True assms(3)])
  have tp: "trace p = trace s @ [Label L_SVC_Context, Read (osRtxInfo env + I_T_RUN_OFS) 8,
                                 Read FPCCR 4, Write FPCCR 4]"
    unfolding p_def by (simp add: context_lspact_fields tst_fields context_load_fields)
  have rp: "regs p R0 = load32 (mem s) FPCCR AND NOT 1" "regs p R1 = FPCCR"
    "regs p R2 = load32 (mem s) (osRtxInfo env + I_T_RUN_OFS + 4)"
    "regs p R3 = osRtxInfo env + I_T_RUN_OFS"
    unfolding p_def by (simp_all add: context_lspact_fields tst_fields context_load_fields)
  show ?thesis
    using switch_to_exit [of env p]
    by (simp add: path Let_def new_events_def tp rp True assms)
next
  case False
  define p where "p = TST_imm LR 0x10 (SVC_Context_load env s)"
  have path: "SVC_Context env s = SVC_ContextSwitch env p"
    unfolding p_def by (rule context_deleted_basic [OF assms(1,2) False])
  have tp: "trace p = trace s @ [Label L_SVC_Context, Read (osRtxInfo env + I_T_RUN_OFS) 8]"
    unfolding p_def by (simp add: tst_fields context_load_fields)
  have rp: "regs p R0 = regs s R0" "regs p R1 = 0"
    "regs p R2 = load32 (mem s) (osRtxInfo env + I_T_RUN_OFS + 4)"
    "regs p R3 = osRtxInfo env + I_T_RUN_OFS"
    unfolding p_def by (simp_all add: tst_fields context_load_fields assms)
  show ?thesis
    using switch_to_exit [of env p]
    by (simp add: path Let_def new_events_def tp rp False assms)
qed

lemma switch_psp:
  "(let a = osRtxInfo env + I_T_RUN_OFS; t = SVC_ContextSwitch env p; nxt = load32 (mem t) (a + 4)
    in PSP t = load32 (mem t) (nxt + 56)
                 + (if FPU_PRESENT env \<and> extended_frame (mem t (nxt + 34)) then 96 else 32))"
  by (simp add: Let_def SVC_ContextSwitch_def SVC_ContextRestore_def svc_exit_eq
      restore_block_psp restore_block_mem SVC_ContextSwitch_block_def switch_publish_eq
      extended_frame_def)

lemma fast_path_eq:
  assumes "load32 (mem s) (osRtxInfo env + I_T_RUN_OFS) = load32 (mem s) (osRtxInfo env + I_T_RUN_OFS + 4)"
  shows "SVC_Context env s =
           (SVC_Context_load env s)
             \<lparr>trace := trace s @ [Label L_SVC_Context, Read (osRtxInfo env + I_T_RUN_OFS) 8,
                                 Exit (regs s LR)]\<rparr>"
  using assms by (simp add: SVC_Context_def context_load_eq Let_def BX_LR_def emit_def)

lemma deleted_psp:
  assumes "FPU_PRESENT env"
    and "load32 (mem s) (osRtxInfo env + I_T_RUN_OFS) = 0"
    and "load32 (mem s) (osRtxInfo env + I_T_RUN_OFS + 4) \<noteq> 0"
  shows "PSP (SVC_Context env s) =
           load32 (mem (SVC_Context env s))
             (load32 (mem (SVC_Context env s)) (osRtxInfo env + I_T_RUN_OFS + 4) + 56)
           + (if extended_frame
                   (mem (SVC_Context env s)
                      (load32 (mem (SVC_Context env s)) (osRtxInfo env + I_T_RUN_OFS + 4) + 34))
              then 96 else 32)"
proof (cases "extended_frame (regs s LR)")
  case True
  show ?thesis
    using switch_psp [of env "SVC_Context_lspact (TST_imm LR 0x10 (SVC_Context_load env s))"] assms(1)
    by (simp add: context_deleted_extended [OF assms(3,2) True assms(1)] Let_def)
next
  case False
  show ?thesis
    using switch_psp [of env "TST_imm LR 0x10 (SVC_Context_load env s)"] assms(1)
    by (simp add: context_deleted_basic [OF assms(3,2) False] Let_def)
qed

lemma bic1_bit0: "\<not> bit ((v :: word32) AND NOT 1) 0"
  by (simp only: bit_and_iff bit_not_iff bit_1_iff) simp

lemma bic1_bit0': "\<not> bit ((v :: word32) AND - 2) 0"
proof -
  have e: "(- 2 :: word32) = NOT 1" by simp
  show ?thesis unfolding e by (rule bic1_bit0)
qed

lemma load_words_2: "load_words m a 2 = [load32 m a, load32 m (a + 4)]"
proof -
  have "(2::nat) = Suc (Suc 0)" by simp
  then show ?thesis by (simp only: load_words_Suc load_words_0)
qed

lemma load_words_4:
  "load_words m a 4 = [load32 m a, load32 m (a + 4), load32 m (a + 4 + 4), load32 m (a + 4 + 4 + 4)]"
proof -
  have "(4::nat) = Suc (Suc (Suc (Suc 0)))" by simp
  then show ?thesis by (simp only: load_words_Suc load_words_0)
qed

lemma load_words_5:
  "load_words m a 5 = [load32 m a, load32 m (a + 4), load32 m (a + 4 + 4), load32 m (a + 4 + 4 + 4),
     load32 m (a + 4 + 4 + 4 + 4)]"
proof -
  have "(5::nat) = Suc (Suc (Suc (Suc (Suc 0))))" by simp
  then show ?thesis by (simp only: load_words_Suc load_words_0)
qed

lemma pushed_pair: "load_words (store_words m a [x, y]) a 2 = [x, y]"
proof -
  have len: "length [x, y] = 2" by simp
  have "load_words (store_words m a [x, y]) a (length [x, y]) = [x, y]"
    by (rule load_words_store_words) simp
  then show ?thesis by (simp only: len)
qed

lemma push2_eq:
  "PUSH [x, y] s =
     s\<lparr>mem := store_words (mem s) (regs s SP - 8) [regs s x, regs s y],
       regs := (regs s)(SP := regs s SP - 8),
       trace := trace s @ [Write (regs s SP - 8) 8]\<rparr>"
  by (cases s) (simp add: insn_defs Let_def)

lemma pop2_eq:
  "POP [x, y] h =
     h\<lparr>regs := (regs h)(x := load32 (mem h) (regs h SP), y := load32 (mem h) (regs h SP + 4),
                        SP := regs h SP + 8),
       trace := trace h @ [Read (regs h SP) 8]\<rparr>"
  by (cases h) (simp add: insn_defs Let_def)

lemma call_fields:
  "trace (call env l f c) = trace c @ [Call f (regs c R0) (regs c R1) (regs c R2) (regs c R3)]"
  by (simp add: call_def)

lemma returned_pair:
  assumes "returns_with_stack (PUSH [x, y] s) h 2"
  shows "regs h SP = regs s SP - 8" "load32 (mem h) (regs h SP) = regs s x"
    "load32 (mem h) (regs h SP + 4) = regs s y"
proof -
  have sp: "regs h SP = regs s SP - 8"
    using assms by (simp add: returns_with_stack_def push2_eq)
  have "load_words (mem h) (regs s SP - 8) 2
          = load_words (store_words (mem s) (regs s SP - 8) [regs s x, regs s y]) (regs s SP - 8) 2"
    using assms by (simp add: returns_with_stack_def push2_eq del: store_words.simps)
  then have "load_words (mem h) (regs s SP - 8) 2 = [regs s x, regs s y]"
    by (simp only: pushed_pair)
  then have "load32 (mem h) (regs s SP - 8) = regs s x \<and> load32 (mem h) (regs s SP - 8 + 4) = regs s y"
    by (simp only: load_words_2 list.inject simp_thms)
  then show "regs h SP = regs s SP - 8" "load32 (mem h) (regs h SP) = regs s x"
    "load32 (mem h) (regs h SP + 4) = regs s y"
    using sp by simp_all
qed

lemma pushed_other: "apart a 8 b 4 \<Longrightarrow> load32 (store_words m a [x, y]) b = load32 m b"
  by (rule load32_store_words_apart) simp

lemma pushed_other_words:
  "apart a 8 b (4 * n) \<Longrightarrow> 4 * n \<le> 2 ^ 32 \<Longrightarrow>
     load_words (store_words m a [x, y]) b n = load_words m b n"
  by (rule load_words_store_words_apart) simp_all

lemma ucast_byte_eq_0: "(ucast (b :: byte) :: word32) = 0 \<longleftrightarrow> b = 0"
proof
  assume z: "(ucast b :: word32) = 0"
  show "b = 0"
  proof (rule bit_word_eqI)
    fix n assume "n < LENGTH(8)"
    then have "bit b n = bit (ucast b :: word32) n" by (simp add: bit_simps)
    then show "bit b n = bit (0 :: byte) n" by (simp add: z)
  qed
qed simp

lemma svc_load_eq:
  "SVC_Handler_load s =
     s\<lparr>regs := (regs s)(R0 := PSP s, R1 := ucast (mem s (load32 (mem s) (PSP s + 24) - 2))),
       trace := trace s @ [Label L_SVC_Handler, Read (PSP s + 24) 4,
                           Read (load32 (mem s) (PSP s + 24) - 2) 1]\<rparr>"
  by (cases s) (simp add: SVC_Handler_load_def insn_defs Let_def)

lemma svc_done_eq:
  "SVC_Done env s =
     s\<lparr>regs := (regs s)(R4 := load32 (mem s) (regs s SP), SP := regs s SP + 8),
       trace := trace s @ [Label L_SVC_Done, Read (regs s SP) 8,
                           Exit (load32 (mem s) (regs s SP + 4))]\<rparr>"
  by (cases s) (simp add: SVC_Done_def insn_defs Let_def)

lemma user_load_eq:
  "SVC_User_load env e =
     (let sp = regs e SP - 8; m = store_words (mem e) sp [regs e R4, regs e LR];
          n = regs e R1; k = load32 m (osRtxUserSVC env)
      in e\<lparr>regs := (regs e)(SP := sp, R2 := osRtxUserSVC env, R3 := k),
           flagN := bit (n - k) 31, flagZ := (n = k), flagC := (k \<le> n),
           flagV := (sint n - sint k \<noteq> sint (n - k)),
           mem := m,
           trace := trace e @ [Label L_SVC_User, Write sp 8, Read (osRtxUserSVC env) 4]\<rparr>)"
  by (cases e) (simp add: SVC_User_load_def insn_defs Let_def del: store_words.simps)

lemma pushed_lo: "load32 (store_words m a [x, y]) a = x"
  and pushed_hi: "load32 (store_words m a [x, y]) (a + 4) = y"
  using pushed_pair [of m a x y] by (simp_all only: load_words_2 list.inject)

lemma pushed_hi': "load32 (store_words m (sp - 8) [x, y]) (sp - 4) = y"
  using pushed_hi [of m "sp - 8" x y] by simp

lemma load_words_store32_apart:
  assumes "apart b 4 a (4 * n)" "4 * n \<le> 2 ^ 32"
  shows "load_words (store32 m b v) a n = load_words m a n"
proof (rule load_words_cong [OF _ assms(2)])
  fix x assume "in_range a (4 * n) x"
  then have "\<not> in_range b 4 x" using assms(1) apart_not_in by blast
  then show "store32 m b v x = m x" by (rule store32_other)
qed

lemma load_words_4n:
  "load_words m a 4 = [load32 m a, load32 m (a + 4), load32 m (a + 8), load32 m (a + 12)]"
  by (simp add: load_words_4 add.commute)

lemma load_words_5n:
  "load_words m a 5 = [load32 m a, load32 m (a + 4), load32 m (a + 8), load32 m (a + 12),
     load32 m (a + 16)]"
  by (simp add: load_words_5 add.commute)

lemma user_args_eq:
  "SVC_User_args u =
     (let a = regs u R0; f = regs u R2 + push_bit 2 (regs u R1)
      in u\<lparr>regs := (regs u)(R4 := load32 (mem u) f, R0 := load32 (mem u) a,
                          R1 := load32 (mem u) (a + 4), R2 := load32 (mem u) (a + 8),
                          R3 := load32 (mem u) (a + 12)),
           trace := trace u @ [Read f 4, Read a 16]\<rparr>)"
  by (cases u) (simp add: SVC_User_args_def insn_defs Let_def add.commute)

lemma user_result_eq:
  "SVC_User_result h =
     h\<lparr>regs := (regs h)(R4 := PSP h), mem := store32 (mem h) (PSP h) (regs h R0),
       trace := trace h @ [Write (PSP h) 4]\<rparr>"
  by (cases h) (simp add: SVC_User_result_def insn_defs Let_def)

lemma blx_fields:
  "trace (BLX env l r c) = trace c @ [Call (regs c r) (regs c R0) (regs c R1) (regs c R2) (regs c R3)]"
  by (simp add: BLX_def call_def)

lemma svc_args_eq:
  "SVC_Handler_args e =
     (let sp = regs e SP - 8; m = store_words (mem e) sp [regs e R0, regs e LR]; a = regs e R0
      in e\<lparr>mem := m,
           regs := (regs e)(SP := sp, R0 := load32 m a, R1 := load32 m (a + 4),
                            R2 := load32 m (a + 8), R3 := load32 m (a + 12),
                            R12 := load32 m (a + 16)),
           trace := trace e @ [Write sp 8, Read a 20]\<rparr>)"
  by (cases e) (simp add: SVC_Handler_args_def insn_defs Let_def add.commute del: store_words.simps)

lemma svc_result_eq:
  "SVC_Handler_result h =
     (let sp = regs h SP; p = load32 (mem h) sp
      in h\<lparr>regs := (regs h)(R12 := p, LR := load32 (mem h) (sp + 4), SP := sp + 8),
           mem := store_words (mem h) p [regs h R0, regs h R1],
           trace := trace h @ [Read sp 8, Write p 8]\<rparr>)"
  by (cases h) (simp add: SVC_Handler_result_def insn_defs Let_def del: store_words.simps)

section \<open>The claims\<close>

text \<open>
  C1. Round trip of a context: when the save block (lines 81 to 91) has saved a thread
  whose control block does not overlap its own save area, and the restore block (lines
  108 to 122) later runs for that thread on a memory that still holds the saved image
  and the two control-block fields, then R4..R11 are the saved ones, S16..S31 are the
  saved ones when the frame is extended (bit \<open>0x10\<close> of the frame byte clear) and are
  not touched otherwise, the frame byte is the low byte of the outgoing EXC\_RETURN,
  EXC\_RETURN is rebuilt as \<open>0xFFFFFF00 OR stack_frame\<close>, and PSP is the value R12
  had when the save began.
\<close>

theorem context_roundtrip:
  assumes fpu: "FPU_PRESENT env"
    and sp: "apart (regs s R1 + TCB_SP_OFS) 4
               (regs s R12 - 4 * of_nat (frame_words (regs s LR))) (4 * frame_words (regs s LR))"
    and sf: "\<not> in_range (regs s R12 - 4 * of_nat (frame_words (regs s LR)))
               (4 * frame_words (regs s LR)) (regs s R1 + TCB_SF_OFS)"
    and nxt: "regs s' R2 = regs s R1"
    and kept_sf: "mem s' (regs s R1 + TCB_SF_OFS)
                    = mem (SVC_ContextSave_block env s) (regs s R1 + TCB_SF_OFS)"
    and kept_sp: "load32 (mem s') (regs s R1 + TCB_SP_OFS)
                    = load32 (mem (SVC_ContextSave_block env s)) (regs s R1 + TCB_SP_OFS)"
    and kept_image:
      "load_words (mem s') (regs s R12 - 4 * of_nat (frame_words (regs s LR)))
           (frame_words (regs s LR))
         = load_words (mem (SVC_ContextSave_block env s))
             (regs s R12 - 4 * of_nat (frame_words (regs s LR))) (frame_words (regs s LR))"
  shows "map (regs (SVC_ContextRestore_block env s')) [R4, R5, R6, R7, R8, R9, R10, R11]
           = map (regs s) [R4, R5, R6, R7, R8, R9, R10, R11]
       \<and> (extended_frame (regs s LR) \<longrightarrow>
            map (sregs (SVC_ContextRestore_block env s')) [16..<32] = map (sregs s) [16..<32])
       \<and> (\<not> extended_frame (regs s LR) \<longrightarrow> sregs (SVC_ContextRestore_block env s') = sregs s')
       \<and> mem (SVC_ContextSave_block env s) (regs s R1 + TCB_SF_OFS) = ucast (regs s LR)
       \<and> regs (SVC_ContextRestore_block env s') LR
           = 0xFFFFFF00 OR ucast (mem (SVC_ContextSave_block env s) (regs s R1 + TCB_SF_OFS))
       \<and> PSP (SVC_ContextRestore_block env s') = regs s R12"
proof -
  let ?n = "frame_words (regs s LR)"
  let ?base = "regs s R12 - 4 * of_nat ?n"
  let ?Rs = "map (regs s) [R4, R5, R6, R7, R8, R9, R10, R11]"
  let ?Ss = "map (sregs s) [16..<32]"
  let ?r = "SVC_ContextRestore_block env s'"
  have sf': "mem s' (regs s' R2 + 34) = ucast (regs s LR)"
    using kept_sf save_block_sf [OF fpu, of s] by (simp add: nxt TCB_SF_OFS_def)
  have sp': "load32 (mem s') (regs s' R2 + 56) = ?base"
    using kept_sp save_block_sp [OF fpu, of s] by (simp add: nxt TCB_SP_OFS_def)
  have ext': "mem s' (regs s' R2 + 34) AND 0x10 = 0 \<longleftrightarrow> extended_frame (regs s LR)"
    by (simp only: sf' low_byte_bit4 extended_frame_def)
  have image: "load_words (mem s') ?base ?n
                 = (if extended_frame (regs s LR) then ?Ss else []) @ ?Rs"
  proof -
    have sp0: "apart (regs s R1 + 56) 4 ?base (4 * ?n)"
      using sp by (simp add: TCB_SP_OFS_def)
    have sf0: "\<not> in_range ?base (4 * ?n) (regs s R1 + 34)"
      using sf by (simp add: TCB_SF_OFS_def)
    show ?thesis
      by (rule trans [OF kept_image save_block_image [OF fpu sp0 sf0]])
  qed
  have lr: "regs ?r LR = 0xFFFFFF00 OR ucast (mem (SVC_ContextSave_block env s) (regs s R1 + TCB_SF_OFS))"
    by (simp only: restore_block_lr sf' save_block_sf [OF fpu] TCB_SF_OFS_def)
  have sfs: "mem (SVC_ContextSave_block env s) (regs s R1 + TCB_SF_OFS) = ucast (regs s LR)"
    by (simp only: save_block_sf [OF fpu] TCB_SF_OFS_def)
  show ?thesis
  proof (cases "extended_frame (regs s LR)")
    case False
    have n: "?n = 8" using False by (simp add: frame_words_def)
    have "load_words (mem s') ?base 8 = ?Rs"
      using image False by (simp only: n if_False append_Nil)
    then have g: "map (regs ?r) [R4, R5, R6, R7, R8, R9, R10, R11] = ?Rs"
      using False by (simp only: restore_block_gprs sp' ext' simp_thms if_False add_0_right)
    have p: "PSP ?r = regs s R12"
      using False by (simp add: restore_block_psp sp' ext' n)
    have f: "sregs ?r = sregs s'"
      using False by (simp only: restore_block_sregs_fun ext' simp_thms if_False)
    show ?thesis using g p f lr sfs False by (simp only: simp_thms)
  next
    case True
    have n: "?n = 24" using True by (simp add: frame_words_def)
    have len: "length (load_words (mem s') ?base 16) = length ?Ss"
      by (simp add: length_load_words)
    have "load_words (mem s') ?base (16 + 8) = ?Ss @ ?Rs"
      using image True n by simp
    then have cat: "load_words (mem s') ?base 16 @ load_words (mem s') (?base + 4 * of_nat 16) 8 = ?Ss @ ?Rs"
      by (simp only: load_words_append)
    have parts: "load_words (mem s') ?base 16 = ?Ss \<and> load_words (mem s') (?base + 4 * of_nat 16) 8 = ?Rs"
      by (rule iffD1 [OF append_eq_append_conv [OF disjI1 [OF len]] cat])
    have "load_words (mem s') (?base + 64) 8 = ?Rs"
      using parts by simp
    then have g: "map (regs ?r) [R4, R5, R6, R7, R8, R9, R10, R11] = ?Rs"
      using True fpu by (simp only: restore_block_gprs sp' ext' simp_thms if_True)
    have f: "map (sregs ?r) [16..<32] = ?Ss"
      using restore_block_sregs [OF fpu, of s'] True parts by (simp only: ext' sp' simp_thms)
    have p: "PSP ?r = regs s R12"
      using True fpu by (simp add: restore_block_psp sp' ext' n)
    show ?thesis using g p f lr sfs True by (simp only: simp_thms)
  qed
qed

theorem context_roundtrip_witness:
  "FPU_PRESENT env_ex
   \<and> extended_frame (regs (switch_ex) LR)
   \<and> map (regs (SVC_ContextRestore_block env_ex resumed_ex)) [R4, R5, R6, R7, R8, R9, R10, R11]
       = [0x44, 0x55, 0x66, 0x77, 0x88, 0x99, 0xAA, 0xBB]
   \<and> map (sregs (SVC_ContextRestore_block env_ex resumed_ex)) [16..<32]
       = map (\<lambda>i. 0x500 + of_nat i) [16..<32]
   \<and> regs (SVC_ContextRestore_block env_ex resumed_ex) LR = 0xFFFFFFED
   \<and> PSP (SVC_ContextRestore_block env_ex resumed_ex) = 0x20001000"
  using context_roundtrip [of env_ex "switch_ex" resumed_ex]
  by (simp add: env_ex_def cpu_ex_def switch_ex_def resumed_ex_def extended_frame_def frame_words_def
      apart_def in_range_def TCB_SP_OFS_def TCB_SF_OFS_def del: upt_rec_numeral)

end
